theory Spec2Isabelle
  imports Main "HOL-Library.Char_ord" "HOL-Library.List_Lexorder"
begin

section \<open>Storage adapter: rows, tables and the database\<close>

text \<open>
  The model follows \<^verbatim>\<open>DatabaseManager\<close> (the adapter class of the repository).
  A table is the list of its rows in insertion order.
  A \<^verbatim>\<open>BOOLEAN\<close> column holds the integer the code binds (\<^verbatim>\<open>x ? 1 : 0\<close>).
  A \<^verbatim>\<open>DATETIME\<close> column holds the text that \<^verbatim>\<open>CURRENT_TIMESTAMP\<close> writes,
  \<^verbatim>\<open>YYYY-MM-DD HH:MM:SS\<close> in UTC. The engine compares and sorts texts byte by byte;
  strings are ordered that way throughout (\<open><\<close> on \<^typ>\<open>string\<close> is the
  lexicographic order by character code).
\<close>

type_synonym datetime = string

text \<open>
  A JavaScript \<^verbatim>\<open>Date\<close>, by the UTC fields that \<^verbatim>\<open>toISOString()\<close> prints:
  \<^verbatim>\<open>YYYY-MM-DD\<close>, \<^verbatim>\<open>HH:MM:SS\<close> and the three digits of the milliseconds.
\<close>

record Date =
  utc_date :: string
  utc_time :: string
  utc_millis :: string

definition toISOString :: "Date \<Rightarrow> string" where
  "toISOString d = utc_date d @ ''T'' @ utc_time d @ ''.'' @ utc_millis d @ ''Z''"

text \<open>The text \<^verbatim>\<open>CURRENT_TIMESTAMP\<close> writes at the instant of a \<^verbatim>\<open>Date\<close>.\<close>

definition sql_datetime :: "Date \<Rightarrow> datetime" where
  "sql_datetime d = utc_date d @ '' '' @ utc_time d"

record user_row =
  u_id :: string
  u_email :: string
  u_encryption_key :: string
  u_master_key_salt :: string
  u_is_admin :: nat
  u_created_at :: datetime
  u_updated_at :: datetime

record alias_row =
  a_id :: string
  a_user_id :: string
  a_alias :: string
  a_description :: "string option"
  a_forwarding_email :: string
  a_is_active :: nat
  a_created_at :: datetime
  a_updated_at :: datetime

record email_row =
  e_id :: string
  e_alias_id :: string
  e_from_email :: string
  e_to_email :: string
  e_subject :: string
  e_content :: string
  e_is_read :: nat
  e_received_at :: datetime

record device_row =
  d_id :: string
  d_user_id :: string
  d_device_name :: string
  d_device_key :: string
  d_last_sync :: datetime
  d_created_at :: datetime

record sync_row =
  s_id :: string
  s_user_id :: string
  s_device_id :: string
  s_data_type :: string
  s_data_id :: string
  s_encrypted_data :: string
  s_operation :: string
  s_timestamp :: datetime

text \<open>
  What the engine's driver does with a JavaScript \<^verbatim>\<open>undefined\<close> among the bound
  parameters of a statement: it binds \<^verbatim>\<open>NULL\<close> for it, or the call raises a type error
  before the statement runs. Which one is a property of the engine the adapter is bound to.
\<close>

datatype undefined_binding = BindsNull | Rejects

text \<open>
  The database: the five tables, the engine's clock, which is what
  \<^verbatim>\<open>CURRENT_TIMESTAMP\<close> reads when a statement runs, and how its driver binds
  \<^verbatim>\<open>undefined\<close>.
\<close>

record database =
  users :: "user_row list"
  email_aliases :: "alias_row list"
  emails :: "email_row list"
  devices :: "device_row list"
  sync_data :: "sync_row list"
  current_timestamp :: datetime
  on_undefined :: undefined_binding

text \<open>What a call of the adapter can raise.\<close>

datatype error =
  BindTypeError
  | ConstraintViolation
  | ReferenceError

text \<open>
  Binding an optional string (\<open>None\<close> is \<^verbatim>\<open>undefined\<close>) to a parameter: the value the
  statement gets (\<open>None\<close> is \<^verbatim>\<open>NULL\<close>), or the raise.
\<close>

definition bind_text :: "database \<Rightarrow> string option \<Rightarrow> error + string option" where
  "bind_text db v =
     (case v of
        Some s \<Rightarrow> Inr (Some s)
      | None \<Rightarrow> (case on_undefined db of BindsNull \<Rightarrow> Inr None | Rejects \<Rightarrow> Inl BindTypeError))"

text \<open>
  \<^verbatim>\<open>ORDER BY c DESC\<close>: the rows by decreasing \<open>c\<close>.
\<close>

definition order_desc :: "('r \<Rightarrow> datetime) \<Rightarrow> 'r list \<Rightarrow> 'r list" where
  "order_desc c rows = rev (sort_key c rows)"

definition order_asc :: "('r \<Rightarrow> datetime) \<Rightarrow> 'r list \<Rightarrow> 'r list" where
  "order_asc c rows = sort_key c rows"

subsection \<open>The objects the adapter returns\<close>

text \<open>
  A \<^verbatim>\<open>Date\<close> property of a returned object is \<^verbatim>\<open>new Date(text)\<close> of the column's
  text; the objects here keep the text.
\<close>

record User =
  usr_id :: string
  usr_email :: string
  usr_encryptionKey :: string
  usr_masterKeySalt :: string
  usr_isAdmin :: bool

record EmailAlias =
  ea_id :: string
  ea_userId :: string
  ea_alias :: string
  ea_description :: "string option"
  ea_forwardingEmail :: string
  ea_isActive :: bool
  ea_createdAt :: datetime
  ea_updatedAt :: datetime

record Email =
  em_id :: string
  em_aliasId :: string
  em_from :: string
  em_to :: string
  em_subject :: string
  em_content :: string
  em_isRead :: bool
  em_receivedAt :: datetime

subsection \<open>User operations\<close>

definition user_of_row :: "user_row \<Rightarrow> User" where
  "user_of_row row =
     \<lparr> usr_id = u_id row, usr_email = u_email row,
       usr_encryptionKey = u_encryption_key row,
       usr_masterKeySalt = u_master_key_salt row, usr_isAdmin = (u_is_admin row = 1) \<rparr>"

text \<open>\<^verbatim>\<open>SELECT * FROM users WHERE id = ?\<close>, first row or null.\<close>

definition getUserById :: "string \<Rightarrow> database \<Rightarrow> User option" where
  "getUserById uid db =
     (case filter (\<lambda>r. u_id r = uid) (users db) of
        [] \<Rightarrow> None
      | row # _ \<Rightarrow> Some (user_of_row row))"

subsection \<open>Alias operations\<close>

definition alias_of_row :: "alias_row \<Rightarrow> EmailAlias" where
  "alias_of_row row =
     \<lparr> ea_id = a_id row, ea_userId = a_user_id row, ea_alias = a_alias row,
       ea_description = a_description row, ea_forwardingEmail = a_forwarding_email row,
       ea_isActive = (a_is_active row = 1),
       ea_createdAt = a_created_at row, ea_updatedAt = a_updated_at row \<rparr>"

text \<open>
  \<^verbatim>\<open>INSERT INTO email_aliases (id, user_id, alias, description, forwarding_email, is_active)\<close>.
  The table declares \<^verbatim>\<open>id TEXT PRIMARY KEY\<close> and \<^verbatim>\<open>alias TEXT UNIQUE NOT NULL\<close>: the
  engine rejects a row whose id or alias string is already stored.
  \<^verbatim>\<open>created_at\<close> and \<^verbatim>\<open>updated_at\<close> default to \<^verbatim>\<open>CURRENT_TIMESTAMP\<close>.
\<close>

record new_alias =
  na_id :: string
  na_userId :: string
  na_alias :: string
  na_description :: "string option"
  na_forwardingEmail :: string
  na_isActive :: bool

definition createAlias :: "new_alias \<Rightarrow> database \<Rightarrow> error + database" where
  "createAlias a db =
     (case bind_text db (na_description a) of
        Inl e \<Rightarrow> Inl e
      | Inr description \<Rightarrow>
          if na_id a \<in> set (map a_id (email_aliases db))
             \<or> na_alias a \<in> set (map a_alias (email_aliases db))
          then Inl ConstraintViolation
          else Inr (db\<lparr>email_aliases := email_aliases db @
                 [\<lparr> a_id = na_id a, a_user_id = na_userId a, a_alias = na_alias a,
                    a_description = description,
                    a_forwarding_email = na_forwardingEmail a,
                    a_is_active = (if na_isActive a then 1 else 0),
                    a_created_at = current_timestamp db,
                    a_updated_at = current_timestamp db \<rparr>]\<rparr>))"

text \<open>\<^verbatim>\<open>SELECT * FROM email_aliases WHERE user_id = ? ORDER BY created_at DESC\<close>.\<close>

definition getAliasesByUserId :: "string \<Rightarrow> database \<Rightarrow> EmailAlias list" where
  "getAliasesByUserId uid db =
     map alias_of_row
       (order_desc a_created_at (filter (\<lambda>r. a_user_id r = uid) (email_aliases db)))"

text \<open>
  \<^verbatim>\<open>updates: Partial<Pick<EmailAlias, 'description' | 'isActive'>>\<close>: each field may be
  absent. The statement is
  \<^verbatim>\<open>UPDATE email_aliases SET description = ?, is_active = ?, updated_at = CURRENT_TIMESTAMP WHERE id = ?\<close>
  with \<^verbatim>\<open>[updates.description, updates.isActive ? 1 : 0, id]\<close> bound: an absent
  \<^verbatim>\<open>isActive\<close> is falsy and binds 0, an absent description binds \<^verbatim>\<open>undefined\<close>.
  Every row with the given id is updated; none is no error.
\<close>

record alias_updates =
  upd_description :: "string option"
  upd_isActive :: "bool option"

definition truthy :: "bool option \<Rightarrow> bool" where
  "truthy v = (case v of None \<Rightarrow> False | Some b \<Rightarrow> b)"

definition updateAlias :: "string \<Rightarrow> alias_updates \<Rightarrow> database \<Rightarrow> error + database" where
  "updateAlias aid updates db =
     (case bind_text db (upd_description updates) of
        Inl e \<Rightarrow> Inl e
      | Inr description \<Rightarrow>
          Inr (db\<lparr>email_aliases :=
                 map (\<lambda>r. if a_id r = aid
                           then r\<lparr>a_description := description,
                                  a_is_active := (if truthy (upd_isActive updates) then 1 else 0),
                                  a_updated_at := current_timestamp db\<rparr>
                           else r)
                     (email_aliases db)\<rparr>))"

text \<open>
  \<^verbatim>\<open>deleteAlias\<close> runs two statements in this order:
  \<^verbatim>\<open>DELETE FROM emails WHERE alias_id = ?\<close>, then
  \<^verbatim>\<open>DELETE FROM email_aliases WHERE id = ?\<close>.
\<close>

definition delete_emails_of_alias :: "string \<Rightarrow> database \<Rightarrow> database" where
  "delete_emails_of_alias aid db = db\<lparr>emails := filter (\<lambda>e. e_alias_id e \<noteq> aid) (emails db)\<rparr>"

definition delete_alias_row :: "string \<Rightarrow> database \<Rightarrow> database" where
  "delete_alias_row aid db =
     db\<lparr>email_aliases := filter (\<lambda>r. a_id r \<noteq> aid) (email_aliases db)\<rparr>"

definition deleteAlias :: "string \<Rightarrow> database \<Rightarrow> database" where
  "deleteAlias aid db = delete_alias_row aid (delete_emails_of_alias aid db)"

subsection \<open>Email operations\<close>

definition email_of_row :: "email_row \<Rightarrow> Email" where
  "email_of_row row =
     \<lparr> em_id = e_id row, em_aliasId = e_alias_id row, em_from = e_from_email row,
       em_to = e_to_email row, em_subject = e_subject row, em_content = e_content row,
       em_isRead = (e_is_read row = 1), em_receivedAt = e_received_at row \<rparr>"

text \<open>\<^verbatim>\<open>SELECT * FROM emails WHERE alias_id = ? ORDER BY received_at DESC\<close>.\<close>

definition getEmailsByAliasId :: "string \<Rightarrow> database \<Rightarrow> Email list" where
  "getEmailsByAliasId aid db =
     map email_of_row
       (order_desc e_received_at (filter (\<lambda>e. e_alias_id e = aid) (emails db)))"

subsection \<open>Device operations\<close>

record Device =
  dev_id :: string
  dev_userId :: string
  dev_deviceName :: string
  dev_deviceKey :: string
  dev_lastSync :: datetime
  dev_createdAt :: datetime

definition device_of_row :: "device_row \<Rightarrow> Device" where
  "device_of_row row =
     \<lparr> dev_id = d_id row, dev_userId = d_user_id row, dev_deviceName = d_device_name row,
       dev_deviceKey = d_device_key row, dev_lastSync = d_last_sync row,
       dev_createdAt = d_created_at row \<rparr>"

text \<open>\<^verbatim>\<open>SELECT * FROM devices WHERE user_id = ? ORDER BY created_at DESC\<close>.\<close>

definition getDevicesByUserId :: "string \<Rightarrow> database \<Rightarrow> Device list" where
  "getDevicesByUserId uid db =
     map device_of_row
       (order_desc d_created_at (filter (\<lambda>r. d_user_id r = uid) (devices db)))"

text \<open>\<^verbatim>\<open>UPDATE devices SET last_sync = CURRENT_TIMESTAMP WHERE id = ?\<close>.\<close>

definition updateDeviceLastSync :: "string \<Rightarrow> database \<Rightarrow> database" where
  "updateDeviceLastSync did db =
     db\<lparr>devices :=
          map (\<lambda>r. if d_id r = did then r\<lparr>d_last_sync := current_timestamp db\<rparr> else r)
              (devices db)\<rparr>"

subsection \<open>Sync log operations\<close>

record SyncData =
  sd_id :: string
  sd_userId :: string
  sd_deviceId :: string
  sd_dataType :: string
  sd_dataId :: string
  sd_encryptedData :: string
  sd_operation :: string
  sd_timestamp :: datetime

text \<open>
  The rows that
  \<^verbatim>\<open>SELECT * FROM sync_data WHERE user_id = ? AND timestamp > ? ORDER BY timestamp ASC\<close>
  selects with \<^verbatim>\<open>[userId, timestamp.toISOString()]\<close> bound: the delta log window of a
  sync round. The column's text is compared with the ISO text of the \<^verbatim>\<open>Date\<close>.
\<close>

definition sync_rows_after :: "string \<Rightarrow> Date \<Rightarrow> database \<Rightarrow> sync_row list" where
  "sync_rows_after uid t db =
     order_asc s_timestamp
       (filter (\<lambda>r. s_user_id r = uid \<and> toISOString t < s_timestamp r) (sync_data db))"

text \<open>
  The callback that \<^verbatim>\<open>getSyncDataAfterTimestamp\<close> maps over the selected rows builds
  \<^verbatim>\<open>{ id: row.id, userId: row.user_id, deviceId: row.device_id, dataType: row.data_type,
    dataId: row.dat-id, ... }\<close>.
  The fifth property is the subtraction \<^verbatim>\<open>row.dat - id\<close>, and no binding named
  \<^verbatim>\<open>id\<close> is in scope of the callback, the method or the module: evaluating the
  identifier raises \<^verbatim>\<open>ReferenceError\<close>, for every row, before the object is built.
\<close>

definition syncData_of_row :: "sync_row \<Rightarrow> error + SyncData" where
  "syncData_of_row row = Inl ReferenceError"

text \<open>
  \<^verbatim>\<open>rows.map(callback)\<close> with a callback that can raise: the first raise ends the call;
  on no row the callback is not run.
\<close>

fun map_rows :: "('r \<Rightarrow> error + 'a) \<Rightarrow> 'r list \<Rightarrow> error + 'a list" where
  "map_rows f [] = Inr []"
| "map_rows f (row # rows) =
     (case f row of
        Inl e \<Rightarrow> Inl e
      | Inr v \<Rightarrow> (case map_rows f rows of Inl e \<Rightarrow> Inl e | Inr vs \<Rightarrow> Inr (v # vs)))"

definition getSyncDataAfterTimestamp :: "string \<Rightarrow> Date \<Rightarrow> database \<Rightarrow> error + SyncData list"
  where
  "getSyncDataAfterTimestamp uid t db = map_rows syncData_of_row (sync_rows_after uid t db)"

section \<open>Sync service\<close>

text \<open>
  \<^verbatim>\<open>syncDevice(userId, deviceId, userMasterKey, lastSyncTimestamp?, db?)\<close>.
  \<open>now\<close> is what \<^verbatim>\<open>new Date()\<close> reads in the first statement of the body, before the
  log is read. \<^verbatim>\<open>lastSyncTimestamp || new Date(0)\<close> is the epoch when the argument is
  absent. The function returns the alias snapshot and \<open>now\<close>, and the database with the
  device marked as synced; a raise of the log read ends the call before anything is written.
\<close>

record sync_result =
  aliases :: "EmailAlias list"
  syncTimestamp :: Date

definition epoch :: Date where
  "epoch = \<lparr> utc_date = ''1970-01-01'', utc_time = ''00:00:00'', utc_millis = ''000'' \<rparr>"

definition syncDevice ::
  "string \<Rightarrow> string \<Rightarrow> 'key \<Rightarrow> Date option \<Rightarrow> Date \<Rightarrow> database
     \<Rightarrow> error + (sync_result \<times> database)" where
  "syncDevice userId deviceId userMasterKey lastSyncTimestamp now db =
     (case getSyncDataAfterTimestamp userId
             (case lastSyncTimestamp of None \<Rightarrow> epoch | Some t \<Rightarrow> t) db of
        Inl e \<Rightarrow> Inl e
      | Inr changes \<Rightarrow>
          Inr (\<lparr> aliases = getAliasesByUserId userId db, syncTimestamp = now \<rparr>,
               updateDeviceLastSync deviceId db))"

text \<open>
  Each \<^verbatim>\<open>await\<close> of \<^verbatim>\<open>syncDevice\<close> is a point where other requests run. The same
  body, with what they do to the database made explicit: \<open>before_read\<close> between the clock
  reading and the log read, \<open>before_snapshot\<close> between the log read and the alias read,
  \<open>before_mark\<close> between the alias read and the device update.
\<close>

definition syncDevice_among ::
  "(database \<Rightarrow> database) \<Rightarrow> (database \<Rightarrow> database) \<Rightarrow> (database \<Rightarrow> database)
     \<Rightarrow> string \<Rightarrow> string \<Rightarrow> 'key \<Rightarrow> Date option \<Rightarrow> Date \<Rightarrow> database
     \<Rightarrow> error + (sync_result \<times> database)" where
  "syncDevice_among before_read before_snapshot before_mark
       userId deviceId userMasterKey lastSyncTimestamp now db =
     (let db1 = before_read db in
      case getSyncDataAfterTimestamp userId
             (case lastSyncTimestamp of None \<Rightarrow> epoch | Some t \<Rightarrow> t) db1 of
        Inl e \<Rightarrow> Inl e
      | Inr changes \<Rightarrow>
          (let db2 = before_snapshot db1;
               snapshot = getAliasesByUserId userId db2;
               db3 = before_mark db2
           in Inr (\<lparr> aliases = snapshot, syncTimestamp = now \<rparr>,
                   updateDeviceLastSync deviceId db3)))"

section \<open>Encryption\<close>

text \<open>What the encryption library's calls can raise.\<close>

datatype crypto_error = DecryptionFailed | JsonSyntaxError

text \<open>
  \<^verbatim>\<open>SyncService.decryptSyncData(syncData, decryptionKey)\<close>:
  \<^verbatim>\<open>
  if (!syncData.encryptedData) return null;
  try {
    const decryptedString = await ClientEncryption.decrypt(syncData.encryptedData, decryptionKey);
    return JSON.parse(decryptedString);
  } catch (error) { console.error(...); return null; }
  \<close>
  \<^verbatim>\<open>ClientEncryption.decrypt\<close> and \<^verbatim>\<open>JSON.parse\<close> are passed in as \<open>decrypt\<close> and
  \<open>json_parse\<close>; \<open>None\<close> is \<^verbatim>\<open>null\<close>.
\<close>

definition decryptSyncData ::
  "(string \<Rightarrow> 'key \<Rightarrow> crypto_error + string) \<Rightarrow> (string \<Rightarrow> crypto_error + 'json option)
     \<Rightarrow> SyncData \<Rightarrow> 'key \<Rightarrow> 'json option" where
  "decryptSyncData decrypt json_parse syncData decryptionKey =
     (if sd_encryptedData syncData = [] then None
      else case decrypt (sd_encryptedData syncData) decryptionKey of
             Inl e \<Rightarrow> None
           | Inr decryptedString \<Rightarrow>
               (case json_parse decryptedString of
                  Inl e \<Rightarrow> None
                | Inr v \<Rightarrow> v))"

subsection \<open>Master key wrapping\<close>

text \<open>
  A \<^verbatim>\<open>Buffer\<close> is a list of bytes. The primitives of Node's \<^verbatim>\<open>crypto\<close> module that
  \<^verbatim>\<open>MasterKeyManager\<close> calls are passed in: \<^verbatim>\<open>scryptSync(password, salt, keylen)\<close>;
  \<open>cipher key iv plain\<close> for \<^verbatim>\<open>createCipheriv('aes-256-cbc', key, iv)\<close> with
  \<^verbatim>\<open>update\<close> and \<^verbatim>\<open>final\<close>, \<open>decipher\<close> for its inverse, which can fail;
  \<^verbatim>\<open>toString('base64')\<close> and \<^verbatim>\<open>Buffer.from(_, 'base64')\<close>.
\<close>

type_synonym buffer = string

record crypto =
  scryptSync :: "string \<Rightarrow> buffer \<Rightarrow> nat \<Rightarrow> buffer"
  cipher :: "buffer \<Rightarrow> buffer \<Rightarrow> buffer \<Rightarrow> buffer"
  decipher :: "buffer \<Rightarrow> buffer \<Rightarrow> buffer \<Rightarrow> crypto_error + buffer"
  base64 :: "buffer \<Rightarrow> string"
  from_base64 :: "string \<Rightarrow> buffer"

definition service_key :: string where
  "service_key = ''emailalies-service-key-2024''"

text \<open>
  \<^verbatim>\<open>MasterKeyManager.encryptMasterKey(masterKey, salt)\<close> of
  \<^verbatim>\<open>scripts/init-admin-users.js\<close>; \<open>iv\<close> is what \<^verbatim>\<open>crypto.randomBytes(16)\<close> returns.
\<close>

definition encryptMasterKey :: "crypto \<Rightarrow> buffer \<Rightarrow> buffer \<Rightarrow> buffer \<Rightarrow> string" where
  "encryptMasterKey lib iv masterKey salt =
     (let key = scryptSync lib service_key salt 32;
          encrypted = cipher lib key iv masterKey
      in base64 lib (iv @ encrypted))"

text \<open>
  Modelled from the spec: \<^verbatim>\<open>MasterKeyManager.decryptMasterKey(blob, salt)\<close>, which the
  sync route calls and which is not among the sources. The spec: "unwrap (decrypt) on
  demand given the stored blob and salt", with "a key derived from a fixed service-wide
  secret plus that user's salt"; "fails with DecryptionFailed if the blob is malformed or
  the derived key does not authenticate it". The blob is read as \<^verbatim>\<open>encryptMasterKey\<close>
  writes it: the 16 bytes of the IV, then the ciphertext.
\<close>

definition decryptMasterKey :: "crypto \<Rightarrow> string \<Rightarrow> buffer \<Rightarrow> crypto_error + buffer" where
  "decryptMasterKey lib blob salt =
     (let raw = from_base64 lib blob in
      if length raw < 16 then Inl DecryptionFailed
      else (case decipher lib (scryptSync lib service_key salt 32) (take 16 raw) (drop 16 raw) of
              Inl e \<Rightarrow> Inl DecryptionFailed
            | Inr masterKey \<Rightarrow> Inr masterKey))"

section \<open>Route handlers\<close>

text \<open>
  \<^verbatim>\<open>getAuthenticatedUser\<close>: no (or an empty) \<^verbatim>\<open>authorization\<close> header gives null;
  otherwise the user id is the header with the first \<^verbatim>\<open>'Bearer '\<close> removed.
\<close>

fun remove_first :: "string \<Rightarrow> string \<Rightarrow> string" where
  "remove_first pat [] = []"
| "remove_first pat (c # cs) =
     (if take (length pat) (c # cs) = pat then drop (length pat) (c # cs)
      else c # remove_first pat cs)"

definition getAuthenticatedUser :: "string option \<Rightarrow> database \<Rightarrow> User option" where
  "getAuthenticatedUser authHeader db =
     (case authHeader of
        None \<Rightarrow> None
      | Some h \<Rightarrow> if h = [] then None else getUserById (remove_first ''Bearer '' h) db)"

datatype 'a response =
  Ok 'a
  | Unauthorized
  | NotFound
  | InternalServerError

subsection \<open>Alias allocation (\<^verbatim>\<open>POST /api/aliases\<close>)\<close>

text \<open>
  \<^verbatim>\<open>
  let attempts = 0;
  do {
    alias = EmailEncryption.generateAlias();
    attempts++;
    if (attempts > 10) return 500;
  } while ((await db.getAliasesByUserId(user.id)).some(a => a.alias === alias));
  \<close>
  \<^verbatim>\<open>generateAlias\<close> is random: \<open>gen n\<close> is what its call number \<open>n\<close> (from 0) returns.
  The loop is entered with \<open>attempts = 0\<close>.
\<close>

function generate_unique_alias ::
  "(nat \<Rightarrow> string) \<Rightarrow> string \<Rightarrow> database \<Rightarrow> nat \<Rightarrow> unit + string" where
  "generate_unique_alias gen uid db attempts =
     (let candidate = gen attempts; attempts' = attempts + 1 in
      if attempts' > 10 then Inl ()
      else if candidate \<in> set (map ea_alias (getAliasesByUserId uid db))
           then generate_unique_alias gen uid db attempts'
           else Inr candidate)"
  by pat_completeness auto
termination
  by (relation "measure (\<lambda>(gen, uid, db, attempts). 11 - attempts)") auto

record create_alias_body =
  body_description :: "string option"
  body_forwardingEmail :: string

record created_alias =
  ca_id :: string
  ca_alias :: string
  ca_description :: "string option"
  ca_forwardingEmail :: string
  ca_isActive :: bool

text \<open>
  The handler, after the body has been parsed. \<open>newId\<close> is what
  \<^verbatim>\<open>crypto.randomUUID()\<close> returns. A raise of \<^verbatim>\<open>createAlias\<close> is caught by the
  handler's \<^verbatim>\<open>catch\<close> and answered with status 500.
\<close>

definition POST_aliases ::
  "string option \<Rightarrow> create_alias_body \<Rightarrow> (nat \<Rightarrow> string) \<Rightarrow> string \<Rightarrow> database
     \<Rightarrow> created_alias response \<times> database" where
  "POST_aliases authHeader body gen newId db =
     (case getAuthenticatedUser authHeader db of
        None \<Rightarrow> (Unauthorized, db)
      | Some user \<Rightarrow>
          (case generate_unique_alias gen (usr_id user) db 0 of
             Inl _ \<Rightarrow> (InternalServerError, db)
           | Inr candidate \<Rightarrow>
               (case createAlias
                       \<lparr> na_id = newId, na_userId = usr_id user, na_alias = candidate,
                         na_description = body_description body,
                         na_forwardingEmail = body_forwardingEmail body,
                         na_isActive = True \<rparr> db of
                  Inl e \<Rightarrow> (InternalServerError, db)
                | Inr db' \<Rightarrow>
                    (Ok \<lparr> ca_id = newId, ca_alias = candidate,
                          ca_description = body_description body,
                          ca_forwardingEmail = body_forwardingEmail body,
                          ca_isActive = True \<rparr>, db'))))"

subsection \<open>Alias update and delete (\<^verbatim>\<open>PUT\<close>, \<^verbatim>\<open>DELETE /api/aliases/[id]\<close>)\<close>

definition PUT_alias ::
  "string option \<Rightarrow> string \<Rightarrow> alias_updates \<Rightarrow> database \<Rightarrow> unit response \<times> database" where
  "PUT_alias authHeader aid updates db =
     (case getAuthenticatedUser authHeader db of
        None \<Rightarrow> (Unauthorized, db)
      | Some user \<Rightarrow>
          (case find (\<lambda>a. ea_id a = aid) (getAliasesByUserId (usr_id user) db) of
             None \<Rightarrow> (NotFound, db)
           | Some _ \<Rightarrow>
               (case updateAlias aid updates db of
                  Inl e \<Rightarrow> (InternalServerError, db)
                | Inr db' \<Rightarrow> (Ok (), db'))))"

definition DELETE_alias :: "string option \<Rightarrow> string \<Rightarrow> database \<Rightarrow> unit response \<times> database"
  where
  "DELETE_alias authHeader aid db =
     (case getAuthenticatedUser authHeader db of
        None \<Rightarrow> (Unauthorized, db)
      | Some user \<Rightarrow>
          (case find (\<lambda>a. ea_id a = aid) (getAliasesByUserId (usr_id user) db) of
             None \<Rightarrow> (NotFound, db)
           | Some _ \<Rightarrow> (Ok (), deleteAlias aid db)))"

text \<open>A request to the alias routes, and a sequence of them served one after another.\<close>

datatype request =
  PostAlias "string option" create_alias_body "nat \<Rightarrow> string" string
  | PutAlias "string option" string alias_updates
  | DeleteAlias "string option" string

fun serve :: "request \<Rightarrow> database \<Rightarrow> database" where
  "serve (PostAlias authHeader body gen newId) db = snd (POST_aliases authHeader body gen newId db)"
| "serve (PutAlias authHeader aid updates) db = snd (PUT_alias authHeader aid updates db)"
| "serve (DeleteAlias authHeader aid) db = snd (DELETE_alias authHeader aid db)"

fun serve_all :: "request list \<Rightarrow> database \<Rightarrow> database" where
  "serve_all [] db = db"
| "serve_all (r # rs) db = serve_all rs (serve r db)"

subsection \<open>Sync (\<^verbatim>\<open>POST /api/sync\<close>)\<close>

text \<open>
  The handler, after the body has been parsed. \<open>unwrap\<close> is the call of
  \<^verbatim>\<open>MasterKeyManager.decryptMasterKey\<close> with the library's primitives bound; its raise is
  caught by the handler's \<^verbatim>\<open>catch\<close>, as is a raise of \<^verbatim>\<open>syncDevice\<close>.
\<close>

record sync_body =
  body_deviceId :: string
  body_lastSyncTimestamp :: "Date option"

definition POST_sync ::
  "(string \<Rightarrow> string \<Rightarrow> crypto_error + 'key) \<Rightarrow> string option \<Rightarrow> sync_body \<Rightarrow> Date
     \<Rightarrow> database \<Rightarrow> sync_result response \<times> database" where
  "POST_sync unwrap authHeader body now db =
     (case getAuthenticatedUser authHeader db of
        None \<Rightarrow> (Unauthorized, db)
      | Some user \<Rightarrow>
          (case find (\<lambda>d. dev_id d = body_deviceId body) (getDevicesByUserId (usr_id user) db) of
             None \<Rightarrow> (NotFound, db)
           | Some _ \<Rightarrow>
               (case unwrap (usr_encryptionKey user) (usr_masterKeySalt user) of
                  Inl e \<Rightarrow> (InternalServerError, db)
                | Inr masterKey \<Rightarrow>
                    (case syncDevice (usr_id user) (body_deviceId body) masterKey
                            (body_lastSyncTimestamp body) now db of
                       Inl e \<Rightarrow> (InternalServerError, db)
                     | Inr (result, db') \<Rightarrow> (Ok result, db')))))"

section \<open>Schema manager\<close>

text \<open>
  What the engine knows of the schema: each table with its column names, each index with
  the table and column it is on.
\<close>


record catalog =
  tables :: "string \<rightharpoonup> string list"
  indexes :: "string \<rightharpoonup> string \<times> string"

text \<open>
  The statements of the schema list. \<^verbatim>\<open>Unparsable\<close> is a text the engine's parser
  rejects: the \<^verbatim>\<open>sync_data\<close> statement declares the column \<^verbatim>\<open>dat-id TEXT NOT NULL\<close>,
  and \<^verbatim>\<open>-\<close> cannot follow a column name.
\<close>

datatype statement =
  CreateTableIfNotExists string "string list"
  | AlterTableAddColumn string string
  | CreateIndexIfNotExists string string string
  | Unparsable

datatype sql_error =
  SyntaxError
  | NoSuchTable
  | NoSuchColumn
  | DuplicateColumn
  | NameInUse

text \<open>
  One statement on the catalog. \<^verbatim>\<open>CREATE TABLE IF NOT EXISTS\<close> is a no-op on a table that
  exists; tables and indexes share their names. \<^verbatim>\<open>ALTER TABLE ADD COLUMN\<close> fails with
  "duplicate column name" on a column the table has. \<^verbatim>\<open>CREATE INDEX IF NOT EXISTS\<close> needs
  its table and column, and is a no-op on an index that exists.
\<close>

fun exec_statement :: "statement \<Rightarrow> catalog \<Rightarrow> sql_error + catalog" where
  "exec_statement (CreateTableIfNotExists t cols) c =
     (case tables c t of
        Some _ \<Rightarrow> Inr c
      | None \<Rightarrow>
          (case indexes c t of
             Some _ \<Rightarrow> Inl NameInUse
           | None \<Rightarrow> Inr (c\<lparr>tables := (tables c)(t \<mapsto> cols)\<rparr>)))"
| "exec_statement (AlterTableAddColumn t col) c =
     (case tables c t of
        None \<Rightarrow> Inl NoSuchTable
      | Some cols \<Rightarrow>
          if col \<in> set cols then Inl DuplicateColumn
          else Inr (c\<lparr>tables := (tables c)(t \<mapsto> cols @ [col])\<rparr>))"
| "exec_statement (CreateIndexIfNotExists i t col) c =
     (case tables c t of
        None \<Rightarrow> Inl NoSuchTable
      | Some cols \<Rightarrow>
          (case tables c i of
             Some _ \<Rightarrow> Inl NameInUse
           | None \<Rightarrow>
               (case indexes c i of
                  Some _ \<Rightarrow> Inr c
                | None \<Rightarrow>
                    if col \<in> set cols then Inr (c\<lparr>indexes := (indexes c)(i \<mapsto> (t, col))\<rparr>)
                    else Inl NoSuchColumn)))"
| "exec_statement Unparsable c = Inl SyntaxError"

text \<open>
  \<^verbatim>\<open>exec(text)\<close> runs the statements of the text in order and stops at the first
  failure; what ran before it stays.
\<close>

fun exec :: "statement list \<Rightarrow> catalog \<Rightarrow> sql_error option \<times> catalog" where
  "exec [] c = (None, c)"
| "exec (s # ss) c =
     (case exec_statement s c of
        Inl e \<Rightarrow> (Some e, c)
      | Inr c' \<Rightarrow> exec ss c')"

text \<open>
  The array \<^verbatim>\<open>schemas\<close>, the same text in \<^verbatim>\<open>initializeTables\<close> and in
  \<^verbatim>\<open>initializeTablesAsync\<close>.
\<close>

definition users_columns :: "string list" where
  "users_columns = [''id'', ''email'', ''encryption_key'', ''master_key_salt'', ''is_admin'',
                    ''created_at'', ''updated_at'']"

definition users_table :: "statement list" where
  "users_table = [CreateTableIfNotExists ''users'' users_columns]"

definition add_master_key_salt :: "statement list" where
  "add_master_key_salt = [AlterTableAddColumn ''users'' ''master_key_salt'']"

definition add_is_admin :: "statement list" where
  "add_is_admin = [AlterTableAddColumn ''users'' ''is_admin'']"

definition email_aliases_table :: "statement list" where
  "email_aliases_table =
     [CreateTableIfNotExists ''email_aliases''
        [''id'', ''user_id'', ''alias'', ''description'', ''forwarding_email'', ''is_active'',
         ''created_at'', ''updated_at'']]"

definition emails_table :: "statement list" where
  "emails_table =
     [CreateTableIfNotExists ''emails''
        [''id'', ''alias_id'', ''from_email'', ''to_email'', ''subject'', ''content'',
         ''is_read'', ''received_at'']]"

definition devices_table :: "statement list" where
  "devices_table =
     [CreateTableIfNotExists ''devices''
        [''id'', ''user_id'', ''device_name'', ''device_key'', ''last_sync'', ''created_at'']]"

definition sync_data_table :: "statement list" where
  "sync_data_table = [Unparsable]"

definition create_indexes :: "statement list" where
  "create_indexes =
     [CreateIndexIfNotExists ''idx_email_aliases_user_id'' ''email_aliases'' ''user_id'',
      CreateIndexIfNotExists ''idx_emails_alias_id'' ''emails'' ''alias_id'',
      CreateIndexIfNotExists ''idx_devices_user_id'' ''devices'' ''user_id'',
      CreateIndexIfNotExists ''idx_sync_data_user_id'' ''sync_data'' ''user_id'']"

definition schemas :: "statement list list" where
  "schemas =
     [users_table, add_master_key_salt, add_is_admin, email_aliases_table, emails_table,
      devices_table, sync_data_table, create_indexes]"

text \<open>
  \<^verbatim>\<open>
  for (const schema of schemas) {
    try { exec(schema) }
    catch (error) {
      if (!schema.includes('ALTER TABLE') || !error.message.includes('duplicate column'))
        console.error(...)
    }
  }
  \<close>
  The loop returns the catalog it leaves and what it wrote to the console.
\<close>

fun is_alter :: "statement \<Rightarrow> bool" where
  "is_alter (AlterTableAddColumn t col) = True"
| "is_alter _ = False"

definition logs_error :: "statement list \<Rightarrow> sql_error \<Rightarrow> bool" where
  "logs_error schema e = (\<not> list_ex is_alter schema \<or> e \<noteq> DuplicateColumn)"

fun apply_schemas ::
  "statement list list \<Rightarrow> catalog \<times> (statement list \<times> sql_error) list
     \<Rightarrow> catalog \<times> (statement list \<times> sql_error) list" where
  "apply_schemas [] (c, console) = (c, console)"
| "apply_schemas (schema # rest) (c, console) =
     (case exec schema c of
        (None, c') \<Rightarrow> apply_schemas rest (c', console)
      | (Some e, c') \<Rightarrow>
          apply_schemas rest (c', if logs_error schema e then console @ [(schema, e)] else console))"

definition empty_catalog :: catalog where
  "empty_catalog = \<lparr> tables = Map.empty, indexes = Map.empty \<rparr>"

text \<open>The catalog one schema of the list leaves, its failure caught.\<close>

definition run_schema :: "statement list \<Rightarrow> catalog \<Rightarrow> catalog" where
  "run_schema schema c = snd (exec schema c)"

text \<open>
  \<^verbatim>\<open>initializeTables\<close> returns at once on the edge engine, \<^verbatim>\<open>initializeTablesAsync\<close>
  on the local one.
\<close>

definition initializeTables ::
  "bool \<Rightarrow> catalog \<Rightarrow> catalog \<times> (statement list \<times> sql_error) list" where
  "initializeTables isCloudflare c =
     (if isCloudflare then (c, []) else apply_schemas schemas (c, []))"

definition initializeTablesAsync ::
  "bool \<Rightarrow> catalog \<Rightarrow> catalog \<times> (statement list \<times> sql_error) list" where
  "initializeTablesAsync isCloudflare c =
     (if \<not> isCloudflare then (c, []) else apply_schemas schemas (c, []))"

text \<open>What a schema reports on the console.\<close>

definition reported :: "statement list \<Rightarrow> catalog \<Rightarrow> (statement list \<times> sql_error) list" where
  "reported schema c =
     (case fst (exec schema c) of
        None \<Rightarrow> []
      | Some e \<Rightarrow> if logs_error schema e then [(schema, e)] else [])"

fun reports :: "statement list list \<Rightarrow> catalog \<Rightarrow> (statement list \<times> sql_error) list" where
  "reports [] c = []"
| "reports (schema # rest) c = reported schema c @ reports rest (run_schema schema c)"

text \<open>The statements of the last schema of the list.\<close>

fun is_create_index :: "statement \<Rightarrow> bool" where
  "is_create_index (CreateIndexIfNotExists i t col) = True"
| "is_create_index _ = False"

section \<open>Scenario data\<close>

text \<open>
  Two users; \<open>bob\<close> owns the alias \<^verbatim>\<open>abc123@domain\<close>, which forwards to
  \<^verbatim>\<open>inbox@b.com\<close> and has received one email; \<open>ann\<close> owns no alias and has
  registered the device \<^verbatim>\<open>D1\<close>. The log holds one entry of \<open>ann\<close>, stamped three
  seconds into 2024.
\<close>

definition ann :: user_row where
  "ann = \<lparr> u_id = ''ann'', u_email = ''a@x.com'', u_encryption_key = ''blobA'',
           u_master_key_salt = ''saltA'', u_is_admin = 1,
           u_created_at = ''2024-01-01 00:00:01'', u_updated_at = ''2024-01-01 00:00:01'' \<rparr>"

definition bob :: user_row where
  "bob = \<lparr> u_id = ''bob'', u_email = ''b@x.com'', u_encryption_key = ''blobB'',
           u_master_key_salt = ''saltB'', u_is_admin = 1,
           u_created_at = ''2024-01-01 00:00:01'', u_updated_at = ''2024-01-01 00:00:01'' \<rparr>"

definition bobs_alias :: alias_row where
  "bobs_alias = \<lparr> a_id = ''alias-1'', a_user_id = ''bob'', a_alias = ''abc123@domain'',
                  a_description = Some ''shopping'', a_forwarding_email = ''inbox@b.com'',
                  a_is_active = 1, a_created_at = ''2024-01-01 00:00:02'',
                  a_updated_at = ''2024-01-01 00:00:02'' \<rparr>"

definition bobs_email :: email_row where
  "bobs_email = \<lparr> e_id = ''mail-1'', e_alias_id = ''alias-1'', e_from_email = ''shop@s.com'',
                  e_to_email = ''abc123@domain'', e_subject = ''hello'', e_content = ''text'',
                  e_is_read = 0, e_received_at = ''2024-01-01 00:00:03'' \<rparr>"

definition anns_device :: device_row where
  "anns_device = \<lparr> d_id = ''D1'', d_user_id = ''ann'', d_device_name = ''phone'',
                   d_device_key = ''dk'', d_last_sync = ''2024-01-01 00:00:02'',
                   d_created_at = ''2024-01-01 00:00:02'' \<rparr>"

definition anns_entry :: sync_row where
  "anns_entry = \<lparr> s_id = ''log-1'', s_user_id = ''ann'', s_device_id = ''D1'',
                  s_data_type = ''alias'', s_data_id = ''alias-0'', s_encrypted_data = '''',
                  s_operation = ''delete'', s_timestamp = ''2024-01-01 00:00:03'' \<rparr>"

definition scenario_db :: database where
  "scenario_db = \<lparr> users = [ann, bob], email_aliases = [bobs_alias], emails = [bobs_email],
                   devices = [anns_device], sync_data = [anns_entry],
                   current_timestamp = ''2024-01-01 00:00:04'',
                   on_undefined = BindsNull \<rparr>"

text \<open>A generator whose every call returns the string \<open>bob\<close> already owns.\<close>

definition gen_abc123 :: "nat \<Rightarrow> string" where
  "gen_abc123 n = ''abc123@domain''"

text \<open>A generator that returns that string first and a fresh one afterwards.\<close>

definition gen_then_fresh :: "nat \<Rightarrow> string" where
  "gen_then_fresh n = (if n = 0 then ''abc123@domain'' else ''zzz999@domain'')"

definition a_body :: create_alias_body where
  "a_body = \<lparr> body_description = Some ''news'', body_forwardingEmail = ''inbox@a.com'' \<rparr>"

definition description_only :: alias_updates where
  "description_only = \<lparr> upd_description = Some ''groceries'', upd_isActive = None \<rparr>"

text \<open>Clock readings of the first day of 2024, by their seconds.\<close>

definition at_second :: "string \<Rightarrow> Date" where
  "at_second ss =
     \<lparr> utc_date = ''2024-01-01'', utc_time = ''00:00:'' @ ss, utc_millis = ''000'' \<rparr>"

text \<open>
  The shared database as a sync round of \<open>ann\<close> finds it when it resumes after its log
  read: meanwhile the clock has moved on to second 06, and the log holds one more entry of
  \<open>ann\<close>, stamped then.
\<close>

definition late_entry :: sync_row where
  "late_entry = \<lparr> s_id = ''log-2'', s_user_id = ''ann'', s_device_id = ''D2'',
                  s_data_type = ''alias'', s_data_id = ''alias-9'', s_encrypted_data = '''',
                  s_operation = ''create'', s_timestamp = ''2024-01-01 00:00:06'' \<rparr>"

definition later_db :: database where
  "later_db = scenario_db\<lparr>sync_data := [anns_entry, late_entry],
                         current_timestamp := ''2024-01-01 00:00:06''\<rparr>"

text \<open>
  Stand-ins for the library calls, to run the definitions on: a cipher that appends the
  key to the reversed plaintext, an identity encoding, a decryption that expects the key
  as a prefix, and a parser that accepts \<^verbatim>\<open>null\<close> and texts that start with a brace.
\<close>

definition toy_crypto :: crypto where
  "toy_crypto =
     \<lparr> scryptSync = (\<lambda>password salt keylen. take keylen (salt @ password)),
       cipher = (\<lambda>key iv plain. rev plain @ key),
       decipher = (\<lambda>key iv data.
          if length key \<le> length data \<and> drop (length data - length key) data = key
          then Inr (rev (take (length data - length key) data))
          else Inl DecryptionFailed),
       base64 = (\<lambda>b. b),
       from_base64 = (\<lambda>s. s) \<rparr>"

definition toy_decrypt :: "string \<Rightarrow> string \<Rightarrow> crypto_error + string" where
  "toy_decrypt encryptedData key =
     (if take (length key) encryptedData = key then Inr (drop (length key) encryptedData)
      else Inl DecryptionFailed)"

definition toy_parse :: "string \<Rightarrow> crypto_error + string option" where
  "toy_parse s =
     (if s = ''null'' then Inr None
      else if take 1 s = ''{'' then Inr (Some s)
      else Inl JsonSyntaxError)"

definition entry_of :: "string \<Rightarrow> SyncData" where
  "entry_of encryptedData =
     \<lparr> sd_id = ''log'', sd_userId = ''ann'', sd_deviceId = ''D1'', sd_dataType = ''alias'',
       sd_dataId = ''alias-1'', sd_encryptedData = encryptedData, sd_operation = ''update'',
       sd_timestamp = ''2024-01-01 00:00:03'' \<rparr>"

section \<open>Properties\<close>

lemma order_desc_Nil [simp]: "order_desc c [] = []"
  by (simp add: order_desc_def)

lemma filter_not_then_is [simp]:
  "filter (\<lambda>e. f e = k) (filter (\<lambda>e. f e \<noteq> k) xs) = []"
  by (induction xs) auto

text \<open>
  C7. Deleting an alias is two-phase and cascades to its emails: the first statement
  removes every email whose alias id is the given one, the second removes the alias row
  and leaves the emails as the first left them, and a fetch of the emails of that alias
  id afterwards returns the empty sequence.
\<close>

theorem deleteAlias_cascades:
  "deleteAlias aid db = delete_alias_row aid (delete_emails_of_alias aid db)
   \<and> filter (\<lambda>e. e_alias_id e = aid) (emails (delete_emails_of_alias aid db)) = []
   \<and> email_aliases (delete_emails_of_alias aid db) = email_aliases db
   \<and> emails (deleteAlias aid db) = emails (delete_emails_of_alias aid db)
   \<and> filter (\<lambda>r. a_id r = aid) (email_aliases (deleteAlias aid db)) = []
   \<and> getEmailsByAliasId aid (deleteAlias aid db) = []"
  by (simp add: deleteAlias_def delete_alias_row_def delete_emails_of_alias_def
      getEmailsByAliasId_def)

lemmas scenario_defs = scenario_db_def ann_def bob_def bobs_alias_def bobs_email_def
  anns_device_def anns_entry_def gen_abc123_def gen_then_fresh_def a_body_def
  description_only_def late_entry_def later_db_def at_second_def

lemmas adapter_defs = getAuthenticatedUser_def getUserById_def user_of_row_def
  getAliasesByUserId_def alias_of_row_def order_desc_def order_asc_def
  createAlias_def updateAlias_def bind_text_def truthy_def

subsection \<open>Alias strings\<close>

lemma createAlias_keeps_distinct:
  "distinct (map a_alias (email_aliases db)) \<Longrightarrow> createAlias a db = Inr db'
     \<Longrightarrow> distinct (map a_alias (email_aliases db'))"
  by (auto simp: createAlias_def split: sum.splits if_splits)

lemma updateAlias_keeps_strings:
  "updateAlias aid u db = Inr db'
     \<Longrightarrow> map a_alias (email_aliases db') = map a_alias (email_aliases db)"
  by (auto simp: updateAlias_def split: sum.splits if_splits)

lemma deleteAlias_keeps_distinct:
  "distinct (map a_alias (email_aliases db))
     \<Longrightarrow> distinct (map a_alias (email_aliases (deleteAlias aid db)))"
  by (simp add: deleteAlias_def delete_alias_row_def delete_emails_of_alias_def
      distinct_map_filter)

lemma serve_keeps_distinct:
  assumes "distinct (map a_alias (email_aliases db))"
  shows "distinct (map a_alias (email_aliases (serve r db)))"
proof (cases r)
  case (PostAlias h body gen newId)
  then show ?thesis
    using assms
    by (auto simp: POST_aliases_def split: option.splits sum.splits
        dest: createAlias_keeps_distinct)
next
  case (PutAlias h aid updates)
  then show ?thesis
    using assms
    by (auto simp: PUT_alias_def split: option.splits sum.splits
        dest: updateAlias_keeps_strings)
next
  case (DeleteAlias h aid)
  then show ?thesis
    using assms
    by (auto simp: DELETE_alias_def split: option.splits
        intro: deleteAlias_keeps_distinct)
qed

lemma serve_all_keeps_distinct:
  "distinct (map a_alias (email_aliases db))
     \<Longrightarrow> distinct (map a_alias (email_aliases (serve_all rs db)))"
  by (induction rs arbitrary: db) (simp_all add: serve_keeps_distinct)

lemma generate_unique_alias_checks_owner:
  "generate_unique_alias gen uid db n = Inr c
     \<Longrightarrow> c \<notin> set (map ea_alias (getAliasesByUserId uid db))"
proof (induction gen uid db n rule: generate_unique_alias.induct)
  case (1 gen uid db attempts)
  show ?case
  proof (cases "attempts + 1 > 10")
    case True
    with "1.prems" show ?thesis by simp
  next
    case False
    show ?thesis
    proof (cases "gen attempts \<in> set (map ea_alias (getAliasesByUserId uid db))")
      case True
      with False "1.prems" have "generate_unique_alias gen uid db (attempts + 1) = Inr c"
        by (simp add: Let_def)
      with "1.IH" False True show ?thesis by simp
    next
      case False
      with \<open>\<not> attempts + 1 > 10\<close> "1.prems" show ?thesis by (simp add: Let_def)
    qed
  qed
qed

lemma POST_rejected_on_stored_string:
  assumes "getAuthenticatedUser h db = Some user"
    and "generate_unique_alias gen (usr_id user) db 0 = Inr c"
    and "c \<in> set (map a_alias (email_aliases db))"
  shows "POST_aliases h body gen newId db = (InternalServerError, db)"
  using assms by (auto simp: POST_aliases_def createAlias_def split: sum.splits)

text \<open>
  C1, as the code has it. No two stored aliases have the same alias string: starting from
  a table whose alias strings are pairwise different, serving any sequence of alias
  requests leaves them pairwise different, because the insert of a string that is already
  stored, by any user, is rejected by the table's \<^verbatim>\<open>UNIQUE\<close> constraint. The allocation
  loop itself compares a candidate with the aliases of the requesting user only: the
  string it accepts is none of that user's, and when it is a string another user has
  stored, the request is answered with status 500 and stores nothing.
\<close>

theorem stored_aliases_unique:
  assumes "distinct (map a_alias (email_aliases db))"
  shows "distinct (map a_alias (email_aliases (serve_all rs db)))
    \<and> (\<forall>c. generate_unique_alias gen uid db 0 = Inr c
           \<longrightarrow> c \<notin> set (map ea_alias (getAliasesByUserId uid db)))
    \<and> (\<forall>user c. getAuthenticatedUser h db = Some user
           \<and> generate_unique_alias gen (usr_id user) db 0 = Inr c
           \<and> c \<in> set (map a_alias (email_aliases db))
           \<longrightarrow> POST_aliases h body gen newId db = (InternalServerError, db))"
  using assms serve_all_keeps_distinct generate_unique_alias_checks_owner
    POST_rejected_on_stored_string by blast

theorem stored_aliases_unique_witness:
  "distinct (map a_alias (email_aliases scenario_db))
   \<and> distinct (map a_alias (email_aliases
        (serve_all [PostAlias (Some ''Bearer ann'') a_body gen_abc123 ''alias-2'',
                    PostAlias (Some ''Bearer bob'') a_body gen_then_fresh ''alias-3'']
           scenario_db)))
   \<and> map a_alias (email_aliases
        (serve_all [PostAlias (Some ''Bearer ann'') a_body gen_abc123 ''alias-2'',
                    PostAlias (Some ''Bearer bob'') a_body gen_then_fresh ''alias-3'']
           scenario_db)) = [''abc123@domain'', ''zzz999@domain'']
   \<and> getAuthenticatedUser (Some ''Bearer ann'') scenario_db = Some (user_of_row ann)
   \<and> generate_unique_alias gen_abc123 ''ann'' scenario_db 0 = Inr ''abc123@domain''
   \<and> ''abc123@domain'' \<notin> set (map ea_alias (getAliasesByUserId ''ann'' scenario_db))
   \<and> ''abc123@domain'' \<in> set (map a_alias (email_aliases scenario_db))
   \<and> POST_aliases (Some ''Bearer ann'') a_body gen_abc123 ''alias-2'' scenario_db
       = (InternalServerError, scenario_db)"
  using stored_aliases_unique [of scenario_db
      "[PostAlias (Some ''Bearer ann'') a_body gen_abc123 ''alias-2'',
        PostAlias (Some ''Bearer bob'') a_body gen_then_fresh ''alias-3'']"
      gen_abc123 "''ann''" "Some ''Bearer ann''" a_body "''alias-2''"]
  by (simp add: scenario_defs adapter_defs POST_aliases_def)

text \<open>
  C1 as stated fails: the allocation loop accepts, for \<open>ann\<close>, a candidate that is
  the stored alias string of \<open>bob\<close>; it is not among the aliases of \<open>ann\<close>, which are
  all the loop looks at.
\<close>

theorem allocation_check_is_per_user:
  "generate_unique_alias gen_abc123 ''ann'' scenario_db 0 = Inr ''abc123@domain''
   \<and> ''abc123@domain'' \<in> set (map a_alias (email_aliases scenario_db))
   \<and> ''abc123@domain'' \<notin> set (map ea_alias (getAliasesByUserId ''ann'' scenario_db))"
  by (simp add: scenario_defs adapter_defs)

subsection \<open>Alias update\<close>

lemma updateAlias_frame:
  "updateAlias aid updates db = Inr db'
     \<Longrightarrow> map a_id (email_aliases db') = map a_id (email_aliases db)
       \<and> map a_alias (email_aliases db') = map a_alias (email_aliases db)
       \<and> map a_forwarding_email (email_aliases db') = map a_forwarding_email (email_aliases db)
       \<and> map a_user_id (email_aliases db') = map a_user_id (email_aliases db)"
  by (auto simp: updateAlias_def split: sum.splits if_splits)

text \<open>
  C6 at a request that supplies only the description: the stored active flag of the
  alias, 1 before, is 0 afterwards, through \<^verbatim>\<open>updateAlias\<close> and through the
  \<^verbatim>\<open>PUT\<close> handler alike, and the adapter then reports the alias as inactive.
\<close>

theorem updateAlias_omitted_isActive_deactivates:
  "map a_is_active (email_aliases scenario_db) = [1]
   \<and> map ea_isActive (getAliasesByUserId ''bob'' scenario_db) = [True]
   \<and> upd_isActive description_only = None
   \<and> updateAlias ''alias-1'' description_only scenario_db
       = Inr (scenario_db\<lparr>email_aliases :=
                [bobs_alias\<lparr>a_description := Some ''groceries'', a_is_active := 0,
                            a_updated_at := ''2024-01-01 00:00:04''\<rparr>]\<rparr>)
   \<and> PUT_alias (Some ''Bearer bob'') ''alias-1'' description_only scenario_db
       = (Ok (), scenario_db\<lparr>email_aliases :=
                [bobs_alias\<lparr>a_description := Some ''groceries'', a_is_active := 0,
                            a_updated_at := ''2024-01-01 00:00:04''\<rparr>]\<rparr>)
   \<and> map ea_isActive (getAliasesByUserId ''bob''
          (snd (PUT_alias (Some ''Bearer bob'') ''alias-1'' description_only scenario_db)))
       = [False]"
  by (simp add: scenario_defs adapter_defs PUT_alias_def)

subsection \<open>The log read\<close>

lemma map_rows_syncData_of_row:
  "map_rows syncData_of_row rows = (if rows = [] then Inr [] else Inl ReferenceError)"
  by (cases rows) (simp_all add: syncData_of_row_def)

lemma getSyncDataAfterTimestamp_cases:
  "getSyncDataAfterTimestamp uid t db
     = (if sync_rows_after uid t db = [] then Inr [] else Inl ReferenceError)"
  by (simp add: getSyncDataAfterTimestamp_def map_rows_syncData_of_row)

lemma set_sync_rows_after:
  "set (sync_rows_after uid t db)
     = {r \<in> set (sync_data db). s_user_id r = uid \<and> toISOString t < s_timestamp r}"
  by (auto simp: sync_rows_after_def order_asc_def)

lemma sync_rows_after_empty_iff:
  "sync_rows_after uid t db = []
     \<longleftrightarrow> (\<forall>r\<in>set (sync_data db). s_user_id r = uid \<longrightarrow> \<not> toISOString t < s_timestamp r)"
proof -
  have "sync_rows_after uid t db = [] \<longleftrightarrow> set (sync_rows_after uid t db) = {}"
    by simp
  also have "\<dots> \<longleftrightarrow> (\<forall>r\<in>set (sync_data db). s_user_id r = uid
      \<longrightarrow> \<not> toISOString t < s_timestamp r)"
    by (auto simp: set_sync_rows_after)
  finally show ?thesis .
qed

text \<open>
  The text of an instant as the column holds it is below the ISO text of the same instant:
  after the date, a space stands against the letter T.
\<close>

lemma same_prefix_then_less: "c < c' \<Longrightarrow> (d :: string) @ c # t < d @ c' # t'"
  by (induction d) simp_all

lemma sql_datetime_less_toISOString: "sql_datetime d < toISOString d"
  by (simp add: sql_datetime_def toISOString_def same_prefix_then_less)

lemma stamped_no_later_not_selected:
  "stamp \<le> sql_datetime t \<Longrightarrow> \<not> toISOString t < stamp"
  using sql_datetime_less_toISOString [of t] by auto

text \<open>
  C2 at a log that holds one entry of the user, stamped after the epoch: the statement
  selects the entry, the row mapping raises, and so does the sync round that reads it.
  And at a watermark one second before the entry's stamp, on the same day: the entry is
  later than the watermark, the statement does not select it, and the read returns no entry.
\<close>

theorem getSyncDataAfterTimestamp_raises:
  "sync_rows_after ''ann'' epoch scenario_db = [anns_entry]
   \<and> getSyncDataAfterTimestamp ''ann'' epoch scenario_db = Inl ReferenceError
   \<and> syncDevice ''ann'' ''D1'' () None (at_second ''10'') scenario_db = Inl ReferenceError
   \<and> sql_datetime (at_second ''02'') < s_timestamp anns_entry
   \<and> sync_rows_after ''ann'' (at_second ''02'') scenario_db = []
   \<and> getSyncDataAfterTimestamp ''ann'' (at_second ''02'') scenario_db = Inr []"
  by (simp add: syncDevice_def getSyncDataAfterTimestamp_def sync_rows_after_def
      order_asc_def syncData_of_row_def epoch_def toISOString_def sql_datetime_def
      scenario_defs)

subsection \<open>Sync rounds\<close>

lemma syncDevice_Inr:
  "syncDevice uid did k since now db = Inr (r, db')
     \<longleftrightarrow> sync_rows_after uid (case since of None \<Rightarrow> epoch | Some t \<Rightarrow> t) db = []
         \<and> r = \<lparr> aliases = getAliasesByUserId uid db, syncTimestamp = now \<rparr>
         \<and> db' = updateDeviceLastSync did db"
  by (auto simp: syncDevice_def getSyncDataAfterTimestamp_cases)

lemma sync_data_updateDeviceLastSync [simp]:
  "sync_data (updateDeviceLastSync did db) = sync_data db"
  by (simp add: updateDeviceLastSync_def)

lemma sync_rows_after_updateDeviceLastSync [simp]:
  "sync_rows_after uid t (updateDeviceLastSync did db) = sync_rows_after uid t db"
  by (simp add: sync_rows_after_def)

text \<open>
  C4. Two rounds in succession, nothing written in between: when the first round returns,
  and every entry of the user in the log was stamped no later than the first round's
  clock reading, the second round, presenting the first round's \<^verbatim>\<open>syncTimestamp\<close>, reads
  an empty delta window and returns.
\<close>

theorem second_round_window_empty:
  assumes "syncDevice uid did k1 since now1 db = Inr (r1, db1)"
    and "\<forall>e\<in>set (sync_data db). s_user_id e = uid \<longrightarrow> s_timestamp e \<le> sql_datetime now1"
  shows "sync_rows_after uid (syncTimestamp r1) db1 = []
    \<and> getSyncDataAfterTimestamp uid (syncTimestamp r1) db1 = Inr []
    \<and> syncDevice uid did k2 (Some (syncTimestamp r1)) now2 db1
        = Inr (\<lparr> aliases = getAliasesByUserId uid db1, syncTimestamp = now2 \<rparr>,
               updateDeviceLastSync did db1)"
proof -
  from assms(1) have r1: "syncTimestamp r1 = now1" and db1: "db1 = updateDeviceLastSync did db"
    by (simp_all add: syncDevice_Inr)
  from assms(2) have "sync_rows_after uid now1 db = []"
    by (simp add: sync_rows_after_empty_iff stamped_no_later_not_selected)
  with r1 db1 have w: "sync_rows_after uid (syncTimestamp r1) db1 = []"
    by simp
  then show ?thesis
    by (simp add: getSyncDataAfterTimestamp_cases syncDevice_Inr)
qed

theorem second_round_window_empty_witness:
  "syncDevice ''ann'' ''D1'' () (Some (at_second ''03'')) (at_second ''10'') scenario_db
     = Inr (\<lparr> aliases = [], syncTimestamp = at_second ''10'' \<rparr>,
            updateDeviceLastSync ''D1'' scenario_db)
   \<and> map s_timestamp (filter (\<lambda>e. s_user_id e = ''ann'') (sync_data scenario_db))
       = [''2024-01-01 00:00:03'']
   \<and> ''2024-01-01 00:00:03'' \<le> sql_datetime (at_second ''10'')
   \<and> sync_rows_after ''ann'' (at_second ''10'') (updateDeviceLastSync ''D1'' scenario_db) = []
   \<and> getSyncDataAfterTimestamp ''ann'' (at_second ''10'')
        (updateDeviceLastSync ''D1'' scenario_db) = Inr []
   \<and> syncDevice ''ann'' ''D1'' () (Some (at_second ''10'')) (at_second ''20'')
        (updateDeviceLastSync ''D1'' scenario_db)
       = Inr (\<lparr> aliases = [], syncTimestamp = at_second ''20'' \<rparr>,
              updateDeviceLastSync ''D1'' (updateDeviceLastSync ''D1'' scenario_db))"
proof -
  have first: "syncDevice ''ann'' ''D1'' () (Some (at_second ''03'')) (at_second ''10'')
       scenario_db
     = Inr (\<lparr> aliases = [], syncTimestamp = at_second ''10'' \<rparr>,
            updateDeviceLastSync ''D1'' scenario_db)"
    by (simp add: syncDevice_Inr sync_rows_after_def order_asc_def getAliasesByUserId_def
        toISOString_def scenario_defs)
  have stamped: "\<forall>e\<in>set (sync_data scenario_db).
      s_user_id e = ''ann'' \<longrightarrow> s_timestamp e \<le> sql_datetime (at_second ''10'')"
    by (simp add: sql_datetime_def scenario_defs)
  have empty: "getAliasesByUserId ''ann'' (updateDeviceLastSync ''D1'' scenario_db) = []"
    by (simp add: getAliasesByUserId_def updateDeviceLastSync_def scenario_defs)
  have entries: "map s_timestamp (filter (\<lambda>e. s_user_id e = ''ann'') (sync_data scenario_db))
      = [''2024-01-01 00:00:03'']"
    by (simp add: scenario_defs)
  have no_later: "''2024-01-01 00:00:03'' \<le> sql_datetime (at_second ''10'')"
    by (simp add: sql_datetime_def at_second_def)
  from second_round_window_empty [OF first stamped, of "()" "at_second ''20''"]
    first entries no_later empty
  show ?thesis by simp
qed

text \<open>
  C10. The result of a sync round and the database it leaves do not depend on the master
  key passed in: the key is never used on the read path, with or without other requests
  running in between.
\<close>

theorem syncDevice_ignores_master_key:
  "syncDevice uid did k1 since now db = syncDevice uid did k2 since now db
   \<and> syncDevice_among w1 w2 w3 uid did k1 since now db
       = syncDevice_among w1 w2 w3 uid did k2 since now db"
  by (simp add: syncDevice_def syncDevice_among_def)

lemma POST_sync_key_value_irrelevant:
  "decrypt1 (usr_encryptionKey user) (usr_masterKeySalt user) = Inr k1
     \<Longrightarrow> decrypt2 (usr_encryptionKey user) (usr_masterKeySalt user) = Inr k2
     \<Longrightarrow> getAuthenticatedUser h db = Some user
     \<Longrightarrow> POST_sync decrypt1 h body now db = POST_sync decrypt2 h body now db"
  by (auto simp: syncDevice_def POST_sync_def split: option.splits)

lemma syncDevice_among_id:
  "syncDevice_among id id id uid did k since now db = syncDevice uid did k since now db"
  by (simp add: syncDevice_among_def syncDevice_def Let_def split: sum.splits)





subsection \<open>Schema initialization\<close>

lemma exec_statement_tables:
  "exec_statement st c = Inr c' \<Longrightarrow> tables c t = Some cols
     \<Longrightarrow> \<exists>cols'. tables c' t = Some cols' \<and> set cols \<subseteq> set cols'"
  by (cases st) (auto split: option.splits if_splits)

lemma exec_statement_indexes:
  "exec_statement st c = Inr c' \<Longrightarrow> indexes c i = Some x \<Longrightarrow> indexes c' i = Some x"
  by (cases st) (auto split: option.splits if_splits)

lemma exec_statement_no_table:
  "exec_statement st c = Inr c' \<Longrightarrow> \<forall>cols. st \<noteq> CreateTableIfNotExists t cols
     \<Longrightarrow> tables c t = None \<Longrightarrow> tables c' t = None"
  by (cases st) (auto split: option.splits if_splits)

lemma run_schema_tables:
  "tables c t = Some cols
     \<Longrightarrow> \<exists>cols'. tables (run_schema ss c) t = Some cols' \<and> set cols \<subseteq> set cols'"
proof (induction ss arbitrary: c cols)
  case Nil
  then show ?case by (simp add: run_schema_def)
next
  case (Cons st ss)
  show ?case
  proof (cases "exec_statement st c")
    case (Inl e)
    with Cons.prems show ?thesis by (simp add: run_schema_def)
  next
    case (Inr c')
    from exec_statement_tables [OF Inr Cons.prems]
    obtain cols' where c': "tables c' t = Some cols'" and sub: "set cols \<subseteq> set cols'"
      by blast
    from Cons.IH [OF c'] obtain cols'' where
      "tables (run_schema ss c') t = Some cols''" "set cols' \<subseteq> set cols''"
      by blast
    with sub Inr show ?thesis by (auto simp: run_schema_def)
  qed
qed

lemma run_schema_indexes:
  "indexes c i = Some x \<Longrightarrow> indexes (run_schema ss c) i = Some x"
proof (induction ss arbitrary: c)
  case Nil
  then show ?case by (simp add: run_schema_def)
next
  case (Cons st ss)
  show ?case
  proof (cases "exec_statement st c")
    case (Inl e)
    with Cons.prems show ?thesis by (simp add: run_schema_def)
  next
    case (Inr c')
    from Cons.IH [OF exec_statement_indexes [OF Inr Cons.prems]] Inr
    show ?thesis by (simp add: run_schema_def)
  qed
qed

lemma run_schema_no_table:
  "\<forall>st\<in>set ss. \<forall>cols. st \<noteq> CreateTableIfNotExists t cols \<Longrightarrow> tables c t = None
     \<Longrightarrow> tables (run_schema ss c) t = None"
proof (induction ss arbitrary: c)
  case Nil
  then show ?case by (simp add: run_schema_def)
next
  case (Cons st ss)
  show ?case
  proof (cases "exec_statement st c")
    case (Inl e)
    with Cons.prems show ?thesis by (simp add: run_schema_def)
  next
    case (Inr c')
    from Cons.prems have "\<forall>cols. st \<noteq> CreateTableIfNotExists t cols" by simp
    from exec_statement_no_table [OF Inr this Cons.prems(2)] have "tables c' t = None" .
    with Cons.IH [of c'] Cons.prems(1) Inr show ?thesis by (simp add: run_schema_def)
  qed
qed

text \<open>When a schema leaves the catalog as it is.\<close>

lemma create_settled:
  "run_schema [CreateTableIfNotExists t cols] c = c
     \<longleftrightarrow> tables c t \<noteq> None \<or> indexes c t \<noteq> None"
proof (cases "tables c t")
  case None
  show ?thesis
  proof (cases "indexes c t")
    case inone: None
    have "tables (c\<lparr>tables := (tables c)(t \<mapsto> cols)\<rparr>) t \<noteq> tables c t"
      using None by simp
    then have "c\<lparr>tables := (tables c)(t \<mapsto> cols)\<rparr> \<noteq> c" by metis
    with None inone show ?thesis by (simp add: run_schema_def)
  next
    case (Some x)
    with None show ?thesis by (simp add: run_schema_def)
  qed
next
  case (Some a)
  then show ?thesis by (simp add: run_schema_def)
qed

lemma alter_settled:
  "run_schema [AlterTableAddColumn t col] c = c
     \<longleftrightarrow> (\<forall>cols. tables c t = Some cols \<longrightarrow> col \<in> set cols)"
proof (cases "tables c t")
  case None
  then show ?thesis by (simp add: run_schema_def)
next
  case (Some cols)
  show ?thesis
  proof (cases "col \<in> set cols")
    case True
    with Some show ?thesis by (simp add: run_schema_def)
  next
    case False
    have "tables (c\<lparr>tables := (tables c)(t \<mapsto> cols @ [col])\<rparr>) t \<noteq> tables c t"
      using Some by simp
    then have "c\<lparr>tables := (tables c)(t \<mapsto> cols @ [col])\<rparr> \<noteq> c" by metis
    with Some False show ?thesis by (simp add: run_schema_def)
  qed
qed

lemma create_settled_after:
  "run_schema [CreateTableIfNotExists t cols] (run_schema [CreateTableIfNotExists t cols] c)
     = run_schema [CreateTableIfNotExists t cols] c"
  by (auto simp: run_schema_def split: option.splits)

lemma alter_settled_after:
  "run_schema [AlterTableAddColumn t col] (run_schema [AlterTableAddColumn t col] c)
     = run_schema [AlterTableAddColumn t col] c"
  by (auto simp: run_schema_def split: option.splits)

lemma create_stays_settled:
  assumes "run_schema [CreateTableIfNotExists t cols] c = c"
  shows "run_schema [CreateTableIfNotExists t cols] (run_schema ss c) = run_schema ss c"
proof -
  from assms have "tables c t \<noteq> None \<or> indexes c t \<noteq> None"
    by (simp add: create_settled)
  then have "tables (run_schema ss c) t \<noteq> None \<or> indexes (run_schema ss c) t \<noteq> None"
    using run_schema_tables [of c t _ ss] run_schema_indexes [of c t _ ss] by fastforce
  then show ?thesis by (simp add: create_settled)
qed

lemma alter_stays_settled:
  assumes "run_schema [AlterTableAddColumn t col] c = c"
    and "\<forall>st\<in>set ss. \<forall>cols. st \<noteq> CreateTableIfNotExists t cols"
  shows "run_schema [AlterTableAddColumn t col] (run_schema ss c) = run_schema ss c"
proof (cases "tables c t")
  case None
  from run_schema_no_table [OF assms(2) None] show ?thesis
    by (simp add: alter_settled)
next
  case (Some cols)
  with assms(1) have "col \<in> set cols" by (simp add: alter_settled)
  moreover from run_schema_tables [OF Some, of ss] obtain cols' where
    "tables (run_schema ss c) t = Some cols'" "set cols \<subseteq> set cols'" by blast
  ultimately show ?thesis by (auto simp: alter_settled)
qed

lemma exec_index_tables:
  "is_create_index st \<Longrightarrow> exec_statement st c = Inr c' \<Longrightarrow> tables c' = tables c"
  by (cases st) (auto split: option.splits if_splits)

lemma run_indexes_tables:
  "list_all is_create_index ss \<Longrightarrow> tables (run_schema ss c) = tables c"
proof (induction ss arbitrary: c)
  case Nil
  then show ?case by (simp add: run_schema_def)
next
  case (Cons st ss)
  show ?case
  proof (cases "exec_statement st c")
    case (Inl e)
    then show ?thesis by (simp add: run_schema_def)
  next
    case (Inr c')
    have "tables c' = tables c"
      using exec_index_tables [OF _ Inr] Cons.prems by simp
    with Cons.IH [of c'] Cons.prems Inr show ?thesis by (simp add: run_schema_def)
  qed
qed

lemma exec_index_again:
  assumes "exec_statement (CreateIndexIfNotExists i t col) c = Inr c'"
    and "tables c'' = tables c" and "\<And>x. indexes c' i = Some x \<Longrightarrow> indexes c'' i = Some x"
  shows "exec_statement (CreateIndexIfNotExists i t col) c'' = Inr c''"
  using assms by (auto split: option.splits if_splits)

lemma indexes_settled_after:
  "list_all is_create_index ss \<Longrightarrow> run_schema ss (run_schema ss c) = run_schema ss c"
proof (induction ss arbitrary: c)
  case Nil
  then show ?case by (simp add: run_schema_def)
next
  case (Cons st ss)
  from Cons.prems obtain i t col where st: "st = CreateIndexIfNotExists i t col"
    by (cases st) auto
  from Cons.prems have rest: "list_all is_create_index ss" by simp
  show ?case
  proof (cases "exec_statement st c")
    case (Inl e)
    then show ?thesis by (simp add: run_schema_def)
  next
    case (Inr c')
    let ?c'' = "run_schema ss c'"
    have tabs: "tables ?c'' = tables c"
      using run_indexes_tables [OF rest, of c'] exec_index_tables [OF _ Inr] st by simp
    have "exec_statement st ?c'' = Inr ?c''"
      unfolding st
      by (rule exec_index_again [OF Inr [unfolded st] tabs]) (rule run_schema_indexes)
    with Inr Cons.IH [OF rest, of c'] show ?thesis by (simp add: run_schema_def)
  qed
qed

lemma create_stays_settled_fold:
  "run_schema [CreateTableIfNotExists t cols] c = c
     \<Longrightarrow> run_schema [CreateTableIfNotExists t cols] (fold run_schema sss c)
         = fold run_schema sss c"
  by (induction sss arbitrary: c) (simp_all add: create_stays_settled)

lemma alter_stays_settled_fold:
  "run_schema [AlterTableAddColumn t col] c = c
     \<Longrightarrow> \<forall>ss\<in>set sss. \<forall>st\<in>set ss. \<forall>cols. st \<noteq> CreateTableIfNotExists t cols
     \<Longrightarrow> run_schema [AlterTableAddColumn t col] (fold run_schema sss c)
         = fold run_schema sss c"
  by (induction sss arbitrary: c) (simp_all add: alter_stays_settled)

lemmas schema_defs = users_table_def add_master_key_salt_def add_is_admin_def
  email_aliases_table_def emails_table_def devices_table_def sync_data_table_def
  create_indexes_def

lemma schemas_settled:
  fixes c :: catalog
  defines "C \<equiv> fold run_schema schemas c"
  shows "run_schema users_table C = C"
    and "run_schema add_master_key_salt C = C"
    and "run_schema add_is_admin C = C"
    and "run_schema email_aliases_table C = C"
    and "run_schema emails_table C = C"
    and "run_schema devices_table C = C"
    and "run_schema sync_data_table C = C"
    and "run_schema create_indexes C = C"
proof -
  have 1: "C = fold run_schema
      [add_master_key_salt, add_is_admin, email_aliases_table, emails_table, devices_table,
       sync_data_table, create_indexes] (run_schema users_table c)"
    by (simp add: C_def schemas_def)
  show "run_schema users_table C = C"
    unfolding 1 users_table_def
    by (rule create_stays_settled_fold) (rule create_settled_after)
  have 2: "C = fold run_schema
      [add_is_admin, email_aliases_table, emails_table, devices_table,
       sync_data_table, create_indexes]
      (run_schema add_master_key_salt (run_schema users_table c))"
    by (simp add: C_def schemas_def)
  show "run_schema add_master_key_salt C = C"
    unfolding 2 add_master_key_salt_def
    by (rule alter_stays_settled_fold) (simp_all add: alter_settled_after schema_defs)
  have 3: "C = fold run_schema
      [email_aliases_table, emails_table, devices_table, sync_data_table, create_indexes]
      (run_schema add_is_admin (run_schema add_master_key_salt (run_schema users_table c)))"
    by (simp add: C_def schemas_def)
  show "run_schema add_is_admin C = C"
    unfolding 3 add_is_admin_def
    by (rule alter_stays_settled_fold) (simp_all add: alter_settled_after schema_defs)
  have 4: "C = fold run_schema [emails_table, devices_table, sync_data_table, create_indexes]
      (run_schema email_aliases_table
        (fold run_schema [users_table, add_master_key_salt, add_is_admin] c))"
    by (simp add: C_def schemas_def)
  show "run_schema email_aliases_table C = C"
    unfolding 4 email_aliases_table_def
    by (rule create_stays_settled_fold) (rule create_settled_after)
  have 5: "C = fold run_schema [devices_table, sync_data_table, create_indexes]
      (run_schema emails_table
        (fold run_schema [users_table, add_master_key_salt, add_is_admin,
           email_aliases_table] c))"
    by (simp add: C_def schemas_def)
  show "run_schema emails_table C = C"
    unfolding 5 emails_table_def
    by (rule create_stays_settled_fold) (rule create_settled_after)
  have 6: "C = fold run_schema [sync_data_table, create_indexes]
      (run_schema devices_table
        (fold run_schema [users_table, add_master_key_salt, add_is_admin,
           email_aliases_table, emails_table] c))"
    by (simp add: C_def schemas_def)
  show "run_schema devices_table C = C"
    unfolding 6 devices_table_def
    by (rule create_stays_settled_fold) (rule create_settled_after)
  show "run_schema sync_data_table C = C"
    by (simp add: sync_data_table_def run_schema_def)
  have 8: "C = run_schema create_indexes
      (fold run_schema [users_table, add_master_key_salt, add_is_admin,
           email_aliases_table, emails_table, devices_table, sync_data_table] c)"
    by (simp add: C_def schemas_def)
  show "run_schema create_indexes C = C"
    unfolding 8 by (rule indexes_settled_after) (simp add: create_indexes_def)
qed

lemma schemas_idempotent:
  "fold run_schema schemas (fold run_schema schemas c) = fold run_schema schemas c"
proof -
  have "fold run_schema schemas C = C" if
    "run_schema users_table C = C" "run_schema add_master_key_salt C = C"
    "run_schema add_is_admin C = C" "run_schema email_aliases_table C = C"
    "run_schema emails_table C = C" "run_schema devices_table C = C"
    "run_schema sync_data_table C = C" "run_schema create_indexes C = C" for C
    using that by (simp add: schemas_def)
  then show ?thesis using schemas_settled [of c] by blast
qed

lemma apply_schemas_eq:
  "apply_schemas ss (c, console) = (fold run_schema ss c, console @ reports ss c)"
  by (induction ss arbitrary: c console)
    (auto simp: run_schema_def reported_def split: prod.splits option.splits)

lemma run_schema_fold_no_table:
  "\<forall>ss\<in>set sss. \<forall>st\<in>set ss. \<forall>cols. st \<noteq> CreateTableIfNotExists t cols
     \<Longrightarrow> tables c t = None \<Longrightarrow> tables (fold run_schema sss c) t = None"
  by (induction sss arbitrary: c) (simp_all add: run_schema_no_table)

lemma run_schema_fold_tables:
  "tables c t = Some cols
     \<Longrightarrow> \<exists>cols'. tables (fold run_schema sss c) t = Some cols' \<and> set cols \<subseteq> set cols'"
proof (induction sss arbitrary: c cols)
  case Nil
  then show ?case by simp
next
  case (Cons ss sss)
  from run_schema_tables [OF Cons.prems, of ss] obtain cols' where
    c': "tables (run_schema ss c) t = Some cols'" and sub: "set cols \<subseteq> set cols'" by blast
  from Cons.IH [OF c'] sub show ?case by fastforce
qed

lemma run_schema_fold_indexes:
  "indexes c i = Some x \<Longrightarrow> indexes (fold run_schema sss c) i = Some x"
  by (induction sss arbitrary: c) (simp_all add: run_schema_indexes)

lemma reported_create:
  "reported [CreateTableIfNotExists t cols] c
     = (if tables c t = None \<and> indexes c t \<noteq> None
        then [([CreateTableIfNotExists t cols], NameInUse)] else [])"
  by (auto simp: reported_def logs_error_def split: option.splits)

lemma reported_alter:
  "reported [AlterTableAddColumn t col] c
     = (if tables c t = None then [([AlterTableAddColumn t col], NoSuchTable)] else [])"
  by (auto simp: reported_def logs_error_def split: option.splits)

lemma reported_create_later:
  assumes "\<forall>ss\<in>set sss. \<forall>st\<in>set ss. \<forall>cols. st \<noteq> CreateTableIfNotExists t cols"
  shows "reported [CreateTableIfNotExists t cols]
           (fold run_schema sss (run_schema [CreateTableIfNotExists t cols] c))
         = reported [CreateTableIfNotExists t cols] c"
proof (cases "tables c t = None \<and> indexes c t \<noteq> None")
  case True
  then have same: "run_schema [CreateTableIfNotExists t cols] c = c"
    by (simp add: create_settled)
  from True obtain x where "indexes c t = Some x" by blast
  from run_schema_fold_indexes [OF this, of sss] run_schema_fold_no_table [OF assms, of c] True
  show ?thesis by (simp add: same reported_create)
next
  case False
  then have "tables (run_schema [CreateTableIfNotExists t cols] c) t \<noteq> None"
    by (auto simp: run_schema_def split: option.splits)
  then obtain cols' where "tables (run_schema [CreateTableIfNotExists t cols] c) t = Some cols'"
    by blast
  from run_schema_fold_tables [OF this, of sss] False show ?thesis
    by (auto simp: reported_create)
qed

lemma reported_alter_later:
  assumes "\<forall>ss\<in>set sss. \<forall>st\<in>set ss. \<forall>cols. st \<noteq> CreateTableIfNotExists t cols"
  shows "reported [AlterTableAddColumn t col]
           (fold run_schema sss (run_schema [AlterTableAddColumn t col] c))
         = reported [AlterTableAddColumn t col] c"
proof (cases "tables c t")
  case None
  then have same: "run_schema [AlterTableAddColumn t col] c = c"
    by (simp add: alter_settled)
  from run_schema_fold_no_table [OF assms None] None show ?thesis
    by (simp add: same reported_alter)
next
  case (Some cols)
  from run_schema_tables [OF Some, of "[AlterTableAddColumn t col]"] obtain cols' where
    "tables (run_schema [AlterTableAddColumn t col] c) t = Some cols'" by blast
  from run_schema_fold_tables [OF this, of sss] Some show ?thesis
    by (auto simp: reported_alter)
qed

lemma exec_indexes_again:
  "list_all is_create_index ss \<Longrightarrow> exec ss (run_schema ss c) = (fst (exec ss c), run_schema ss c)"
proof (induction ss arbitrary: c)
  case Nil
  then show ?case by (simp add: run_schema_def)
next
  case (Cons st ss)
  from Cons.prems obtain i t col where st: "st = CreateIndexIfNotExists i t col"
    by (cases st) auto
  from Cons.prems have rest: "list_all is_create_index ss" by simp
  show ?case
  proof (cases "exec_statement st c")
    case (Inl e)
    then show ?thesis by (simp add: run_schema_def)
  next
    case (Inr c')
    let ?c'' = "run_schema ss c'"
    have tabs: "tables ?c'' = tables c"
      using run_indexes_tables [OF rest, of c'] exec_index_tables [OF _ Inr] st by simp
    have "exec_statement st ?c'' = Inr ?c''"
      unfolding st
      by (rule exec_index_again [OF Inr [unfolded st] tabs]) (rule run_schema_indexes)
    with Inr Cons.IH [OF rest, of c'] show ?thesis by (simp add: run_schema_def)
  qed
qed

lemma reported_indexes_later:
  "list_all is_create_index ss \<Longrightarrow> reported ss (run_schema ss c) = reported ss c"
  by (simp add: reported_def exec_indexes_again)

lemma schemas_reports:
  "reports schemas (fold run_schema schemas c) = reports schemas c"
proof -
  define C where "C = fold run_schema schemas c"
  note settled = schemas_settled [of c, folded C_def]
  have now: "reports schemas C
      = reported users_table C @ reported add_master_key_salt C @ reported add_is_admin C
        @ reported email_aliases_table C @ reported emails_table C @ reported devices_table C
        @ reported sync_data_table C @ reported create_indexes C"
    by (simp add: schemas_def settled)
  define c1 where "c1 = run_schema users_table c"
  define c2 where "c2 = run_schema add_master_key_salt c1"
  define c3 where "c3 = run_schema add_is_admin c2"
  define c4 where "c4 = run_schema email_aliases_table c3"
  define c5 where "c5 = run_schema emails_table c4"
  define c6 where "c6 = run_schema devices_table c5"
  define c7 where "c7 = run_schema sync_data_table c6"
  note cs = c1_def c2_def c3_def c4_def c5_def c6_def c7_def
  have first: "reports schemas c
      = reported users_table c @ reported add_master_key_salt c1 @ reported add_is_admin c2
        @ reported email_aliases_table c3 @ reported emails_table c4 @ reported devices_table c5
        @ reported sync_data_table c6 @ reported create_indexes c7"
    by (simp add: schemas_def cs)
  have r1: "reported users_table C = reported users_table c"
  proof -
    have "C = fold run_schema
        [add_master_key_salt, add_is_admin, email_aliases_table, emails_table, devices_table,
         sync_data_table, create_indexes] (run_schema users_table c)"
      by (simp add: C_def schemas_def)
    then show ?thesis
      unfolding users_table_def
      by (simp only:) (rule reported_create_later, simp add: schema_defs)
  qed
  have r2: "reported add_master_key_salt C = reported add_master_key_salt c1"
  proof -
    have "C = fold run_schema
        [add_is_admin, email_aliases_table, emails_table, devices_table,
         sync_data_table, create_indexes] (run_schema add_master_key_salt c1)"
      by (simp add: C_def schemas_def cs)
    then show ?thesis
      unfolding add_master_key_salt_def
      by (simp only:) (rule reported_alter_later, simp add: schema_defs)
  qed
  have r3: "reported add_is_admin C = reported add_is_admin c2"
  proof -
    have "C = fold run_schema
        [email_aliases_table, emails_table, devices_table, sync_data_table, create_indexes]
        (run_schema add_is_admin c2)"
      by (simp add: C_def schemas_def cs)
    then show ?thesis
      unfolding add_is_admin_def
      by (simp only:) (rule reported_alter_later, simp add: schema_defs)
  qed
  have r4: "reported email_aliases_table C = reported email_aliases_table c3"
  proof -
    have "C = fold run_schema [emails_table, devices_table, sync_data_table, create_indexes]
        (run_schema email_aliases_table c3)"
      by (simp add: C_def schemas_def cs)
    then show ?thesis
      unfolding email_aliases_table_def
      by (simp only:) (rule reported_create_later, simp add: schema_defs)
  qed
  have r5: "reported emails_table C = reported emails_table c4"
  proof -
    have "C = fold run_schema [devices_table, sync_data_table, create_indexes]
        (run_schema emails_table c4)"
      by (simp add: C_def schemas_def cs)
    then show ?thesis
      unfolding emails_table_def
      by (simp only:) (rule reported_create_later, simp add: schema_defs)
  qed
  have r6: "reported devices_table C = reported devices_table c5"
  proof -
    have "C = fold run_schema [sync_data_table, create_indexes]
        (run_schema devices_table c5)"
      by (simp add: C_def schemas_def cs)
    then show ?thesis
      unfolding devices_table_def
      by (simp only:) (rule reported_create_later, simp add: schema_defs)
  qed
  have r7: "reported sync_data_table C = reported sync_data_table c6"
    by (simp add: reported_def sync_data_table_def)
  have r8: "reported create_indexes C = reported create_indexes c7"
  proof -
    have "C = run_schema create_indexes c7"
      by (simp add: C_def schemas_def cs)
    then show ?thesis
      by (simp add: reported_indexes_later create_indexes_def)
  qed
  show ?thesis
    unfolding C_def [symmetric] now first r1 r2 r3 r4 r5 r6 r7 r8 ..
qed

lemma apply_schemas_again:
  "apply_schemas schemas (fst (apply_schemas schemas (c, [])), [])
     = apply_schemas schemas (c, [])"
  by (simp add: apply_schemas_eq schemas_idempotent schemas_reports)

text \<open>
  Reruns change nothing: from any catalog, a run on the catalog that a run has left
  returns that catalog again, with the same tables, columns and indexes, and writes to the
  console what the first run wrote; so does any number of runs, of either method.
\<close>

lemma schema_initialization_idempotent:
  "initializeTables isCloudflare (fst (initializeTables isCloudflare c))
     = initializeTables isCloudflare c
   \<and> initializeTablesAsync isCloudflare (fst (initializeTablesAsync isCloudflare c))
     = initializeTablesAsync isCloudflare c
   \<and> ((\<lambda>c. fst (initializeTables isCloudflare c)) ^^ Suc n) c
     = fst (initializeTables isCloudflare c)
   \<and> ((\<lambda>c. fst (initializeTablesAsync isCloudflare c)) ^^ Suc n) c
     = fst (initializeTablesAsync isCloudflare c)"
proof -
  have a: "initializeTables isCloudflare (fst (initializeTables isCloudflare c))
     = initializeTables isCloudflare c" for c
    by (simp add: initializeTables_def apply_schemas_again)
  have b: "initializeTablesAsync isCloudflare (fst (initializeTablesAsync isCloudflare c))
     = initializeTablesAsync isCloudflare c" for c
    by (simp add: initializeTablesAsync_def apply_schemas_again)
  have c: "((\<lambda>c. fst (initializeTables isCloudflare c)) ^^ Suc n) c
     = fst (initializeTables isCloudflare c)"
    by (induction n) (simp_all add: a)
  have d: "((\<lambda>c. fst (initializeTablesAsync isCloudflare c)) ^^ Suc n) c
     = fst (initializeTablesAsync isCloudflare c)"
    by (induction n) (simp_all add: b)
  from a b c d show ?thesis by blast
qed

lemma reported_sync_data_table:
  "reported sync_data_table c = [(sync_data_table, SyntaxError)]"
  by (simp add: reported_def sync_data_table_def logs_error_def)

lemma syntax_error_reported:
  "(sync_data_table, SyntaxError) \<in> set (reports schemas c)"
  by (simp add: schemas_def reported_sync_data_table)

text \<open>
  C5 at a database with no table yet, and at its rerun: each run reports two failures on
  the console, the \<^verbatim>\<open>sync_data\<close> statement, which the parser rejects, and the index
  statement, which finds no table \<^verbatim>\<open>sync_data\<close>; the table and its index are not
  there after the run. From every catalog, a run of either method reports the rejected
  \<^verbatim>\<open>sync_data\<close> statement.
\<close>

theorem schema_initialization_logs_errors:
  "snd (initializeTables False empty_catalog)
     = [(sync_data_table, SyntaxError), (create_indexes, NoSuchTable)]
   \<and> snd (initializeTables False (fst (initializeTables False empty_catalog)))
     = [(sync_data_table, SyntaxError), (create_indexes, NoSuchTable)]
   \<and> tables (fst (initializeTables False empty_catalog)) ''sync_data'' = None
   \<and> indexes (fst (initializeTables False empty_catalog)) ''idx_sync_data_user_id'' = None
   \<and> (sync_data_table, SyntaxError) \<in> set (snd (initializeTables False c))
   \<and> (sync_data_table, SyntaxError) \<in> set (snd (initializeTablesAsync True c))"
proof -
  have fresh: "snd (initializeTables False empty_catalog)
       = [(sync_data_table, SyntaxError), (create_indexes, NoSuchTable)]
     \<and> tables (fst (initializeTables False empty_catalog)) ''sync_data'' = None
     \<and> indexes (fst (initializeTables False empty_catalog)) ''idx_sync_data_user_id'' = None"
    by (simp add: initializeTables_def schemas_def schema_defs users_columns_def
        empty_catalog_def logs_error_def)
  have again: "snd (initializeTables False (fst (initializeTables False empty_catalog)))
       = snd (initializeTables False empty_catalog)"
    by (simp add: initializeTables_def apply_schemas_again)
  have every: "(sync_data_table, SyntaxError) \<in> set (snd (initializeTables False c))"
    "(sync_data_table, SyntaxError) \<in> set (snd (initializeTablesAsync True c))"
    by (simp_all add: initializeTables_def initializeTablesAsync_def apply_schemas_eq
        syntax_error_reported)
  from fresh again every show ?thesis by simp
qed

subsection \<open>Decryption\<close>

text \<open>
  C8. Decrypting a sync-log entry is best-effort and isolated: when the decryption of an
  entry fails, \<^verbatim>\<open>decryptSyncData\<close> returns null for it and raises nothing, and among
  the entries of a round, decrypted one by one, the entries before and after it get the
  results they get without it.
\<close>

theorem decryptSyncData_best_effort:
  assumes "decrypt (sd_encryptedData bad) key = Inl e"
  shows "decryptSyncData decrypt json_parse bad key = None
    \<and> map (\<lambda>entry. decryptSyncData decrypt json_parse entry key) (before @ bad # after)
        = map (\<lambda>entry. decryptSyncData decrypt json_parse entry key) before
          @ None # map (\<lambda>entry. decryptSyncData decrypt json_parse entry key) after"
  using assms by (simp add: decryptSyncData_def)

theorem decryptSyncData_best_effort_witness:
  "toy_decrypt (sd_encryptedData (entry_of ''K2{b}'')) ''K1'' = Inl DecryptionFailed
   \<and> decryptSyncData toy_decrypt toy_parse (entry_of ''K2{b}'') ''K1'' = None
   \<and> map (\<lambda>entry. decryptSyncData toy_decrypt toy_parse entry ''K1'')
        [entry_of ''K1{a}'', entry_of ''K2{b}'', entry_of ''K1{c}'']
       = [Some ''{a}'', None, Some ''{c}'']"
  using decryptSyncData_best_effort [of toy_decrypt "entry_of ''K2{b}''" "''K1''"
      DecryptionFailed toy_parse "[entry_of ''K1{a}'']" "[entry_of ''K1{c}'']"]
  by (simp add: toy_decrypt_def toy_parse_def entry_of_def decryptSyncData_def)

text \<open>
  C9. Unwrapping what wrapping produced, under the same salt, gives the master key back,
  for every key and salt, given that the cipher and the encoding are inverted by their
  counterparts and the IV has its 16 bytes.
\<close>

theorem master_key_round_trip:
  assumes "\<forall>key iv plain. decipher lib key iv (cipher lib key iv plain) = Inr plain"
    and "\<forall>b. from_base64 lib (base64 lib b) = b"
    and "length iv = 16"
  shows "decryptMasterKey lib (encryptMasterKey lib iv masterKey salt) salt = Inr masterKey"
  using assms by (simp add: decryptMasterKey_def encryptMasterKey_def Let_def)

theorem master_key_round_trip_witness:
  "length ''0123456789abcdef'' = 16
   \<and> decipher toy_crypto ''k'' ''0123456789abcdef'' (cipher toy_crypto ''k'' ''0123456789abcdef'' ''m'') = Inr ''m''
   \<and> from_base64 toy_crypto (base64 toy_crypto ''xyz'') = ''xyz''
   \<and> encryptMasterKey toy_crypto ''0123456789abcdef'' ''master'' ''salt''
       = ''0123456789abcdefretsamsaltemailalies-service-key-2024''
   \<and> decryptMasterKey toy_crypto
        (encryptMasterKey toy_crypto ''0123456789abcdef'' ''master'' ''salt'') ''salt''
       = Inr ''master''"
proof -
  have c: "\<forall>key iv plain. decipher toy_crypto key iv (cipher toy_crypto key iv plain) = Inr plain"
    by (simp add: toy_crypto_def)
  have b: "\<forall>b. from_base64 toy_crypto (base64 toy_crypto b) = b"
    by (simp add: toy_crypto_def)
  have l: "length ''0123456789abcdef'' = 16" by simp
  from master_key_round_trip [OF c b l, of "''master''" "''salt''"] c b
  show ?thesis
    by (simp add: encryptMasterKey_def toy_crypto_def service_key_def)
qed

end
